theory Spec2Isabelle
  imports Main "HOL-Library.Word" "HOL-Library.AList" "HOL-Library.Sublist"
begin

section \<open>Strings\<close>

text \<open>
  A JavaScript string is a sequence of 16-bit code units. Source literals are ASCII and
  are written through \<open>js\<close>.
\<close>

type_synonym jstring = "16 word list"

definition js :: "string \<Rightarrow> jstring" where
  "js s = map (\<lambda>c. of_nat (of_char c)) s"

text \<open>
  \<open>String.prototype.trim\<close> strips the code units of the ECMAScript productions
  WhiteSpace (TAB, VT, FF, SP, NBSP, ZWNBSP and the category Zs) and LineTerminator
  (LF, CR, LS, PS) from both ends.
\<close>

definition WhiteSpace :: "16 word \<Rightarrow> bool" where
  "WhiteSpace c \<longleftrightarrow>
     c \<in> {0x0009, 0x000B, 0x000C, 0x0020, 0x00A0, 0x1680, 0x202F, 0x205F, 0x3000, 0xFEFF}
     \<or> (0x2000 \<le> c \<and> c \<le> 0x200A)"

definition LineTerminator :: "16 word \<Rightarrow> bool" where
  "LineTerminator c \<longleftrightarrow> c \<in> {0x000A, 0x000D, 0x2028, 0x2029}"

definition trimmable :: "16 word \<Rightarrow> bool" where
  "trimmable c \<longleftrightarrow> WhiteSpace c \<or> LineTerminator c"

definition trim :: "jstring \<Rightarrow> jstring" where
  "trim s = rev (dropWhile trimmable (rev (dropWhile trimmable s)))"

section \<open>The data model of \<open>App.tsx\<close>\<close>

text \<open>
  \<open>interface Todo\<close>. The fields \<open>id\<close> and \<open>text\<close> carry a prime: both names are taken
  in Isabelle.
\<close>

record Todo =
  id' :: jstring
  text' :: jstring
  completed :: bool
  createdAt :: jstring

text \<open>\<open>type Filter = 'all' | 'active' | 'completed'\<close>\<close>

datatype Filter = F_all | F_active | F_completed

text \<open>
  The four \<open>useState\<close> cells of the component \<open>App\<close>. The field \<open>filter\<close> carries a
  prime as well.
\<close>

record App =
  todos :: "Todo list"
  darkMode :: bool
  filter' :: Filter
  inputValue :: jstring

section \<open>The operations of the component\<close>

text \<open>
  \<open>addTodo\<close> reads \<open>inputValue\<close> from the state. The results of \<open>generateId()\<close>
  (\<open>crypto.randomUUID()\<close>) and of \<open>new Date().toISOString()\<close> come from the environment and
  are the parameters \<open>newId\<close> and \<open>now\<close>. A string is falsy exactly when it is empty.
\<close>

definition addTodo :: "jstring \<Rightarrow> jstring \<Rightarrow> App \<Rightarrow> App" where
  "addTodo newId now s =
     (let text = trim (inputValue s) in
      if text = [] then s
      else s\<lparr>todos := todos s @ [\<lparr>id' = newId, text' = text, completed = False, createdAt = now\<rparr>],
             inputValue := []\<rparr>)"

definition toggleTodo :: "jstring \<Rightarrow> App \<Rightarrow> App" where
  "toggleTodo i s =
     s\<lparr>todos := map (\<lambda>todo. if id' todo = i then todo\<lparr>completed := \<not> completed todo\<rparr> else todo)
                     (todos s)\<rparr>"

definition deleteTodo :: "jstring \<Rightarrow> App \<Rightarrow> App" where
  "deleteTodo i s = s\<lparr>todos := filter (\<lambda>todo. id' todo \<noteq> i) (todos s)\<rparr>"

definition clearCompleted :: "App \<Rightarrow> App" where
  "clearCompleted s = s\<lparr>todos := filter (\<lambda>todo. \<not> completed todo) (todos s)\<rparr>"

definition toggleDarkMode :: "App \<Rightarrow> App" where
  "toggleDarkMode s = s\<lparr>darkMode := \<not> darkMode s\<rparr>"

definition setFilter :: "Filter \<Rightarrow> App \<Rightarrow> App" where
  "setFilter f s = s\<lparr>filter' := f\<rparr>"

definition setInputValue :: "jstring \<Rightarrow> App \<Rightarrow> App" where
  "setInputValue v s = s\<lparr>inputValue := v\<rparr>"

text \<open>
  The spec's \<open>addTask(text)\<close>: the user fills the input field with \<open>text\<close>
  (\<open>onChange\<close>) and submits it (Enter or the Add button).
\<close>

definition addTask :: "jstring \<Rightarrow> jstring \<Rightarrow> jstring \<Rightarrow> App \<Rightarrow> App" where
  "addTask newId now text s = addTodo newId now (setInputValue text s)"

text \<open>A sequence of \<open>addTask\<close> calls, each with the id and the time the environment gave it.\<close>

fun addTasks :: "(jstring \<times> jstring \<times> jstring) list \<Rightarrow> App \<Rightarrow> App" where
  "addTasks [] s = s"
| "addTasks ((newId, now, text) # calls) s = addTasks calls (addTask newId now text s)"

text \<open>The item that a call creates when its text is not blank.\<close>

definition newTodo :: "jstring \<times> jstring \<times> jstring \<Rightarrow> Todo" where
  "newTodo call =
     (case call of (newId, now, text) \<Rightarrow>
        \<lparr>id' = newId, text' = trim text, completed = False, createdAt = now\<rparr>)"

definition nonblank :: "jstring \<times> jstring \<times> jstring \<Rightarrow> bool" where
  "nonblank call = (case call of (newId, now, text) \<Rightarrow> trim text \<noteq> [])"

section \<open>Derived view state\<close>

definition filteredTodos :: "App \<Rightarrow> Todo list" where
  "filteredTodos s =
     filter (\<lambda>todo. if filter' s = F_active then \<not> completed todo
                    else if filter' s = F_completed then completed todo
                    else True)
            (todos s)"

definition activeCount :: "App \<Rightarrow> nat" where
  "activeCount s = length (filter (\<lambda>todo. \<not> completed todo) (todos s))"

definition completedCount :: "App \<Rightarrow> nat" where
  "completedCount s = length (filter (\<lambda>todo. completed todo) (todos s))"

text \<open>The selection as section 4.2 of the spec words it, to compare \<open>filteredTodos\<close> with.\<close>

definition spec_filteredTasks :: "Filter \<Rightarrow> Todo list \<Rightarrow> Todo list" where
  "spec_filteredTasks f ts =
     filter (\<lambda>t. f = F_all \<or> (f = F_active \<and> \<not> completed t) \<or> (f = F_completed \<and> completed t)) ts"

text \<open>
  The footer of the rendered page: \<open>{todos.length > 0 && (<div data-testid="todo-footer"> ...)}\<close>
  with the count and, under \<open>{completedCount > 0 && ...}\<close>, the clear-completed button.
  \<open>None\<close> is a page without footer.
\<close>

record Footer =
  activeCountShown :: nat
  clearCompletedShown :: bool

definition footer :: "App \<Rightarrow> Footer option" where
  "footer s =
     (if length (todos s) > 0
      then Some \<lparr>activeCountShown = activeCount s, clearCompletedShown = (completedCount s > 0)\<rparr>
      else None)"

section \<open>The browser's storage\<close>

text \<open>
  \<open>localStorage\<close> is an object of the browser, not of this repository. The model follows
  the Web Storage standard: an ordered list of key/value pairs of strings; \<open>getItem\<close>
  gives \<open>null\<close> (here \<open>None\<close>) for a key that is absent; every access raises
  \<open>SecurityError\<close> when the origin is denied its storage; \<open>setItem\<close> raises
  \<open>QuotaExceededError\<close> when the new value cannot be stored, which is here: when the code
  units of all keys and values would exceed the quota.
\<close>

datatype DOMException = SecurityError | QuotaExceededError

record Storage =
  accessible :: bool
  quota :: nat
  entries :: "(jstring \<times> jstring) list"

definition used :: "(jstring \<times> jstring) list \<Rightarrow> nat" where
  "used es = sum_list (map (\<lambda>kv. length (fst kv) + length (snd kv)) es)"

definition getItem :: "Storage \<Rightarrow> jstring \<Rightarrow> DOMException + jstring option" where
  "getItem st k = (if accessible st then Inr (map_of (entries st) k) else Inl SecurityError)"

definition setItem :: "Storage \<Rightarrow> jstring \<Rightarrow> jstring \<Rightarrow> DOMException + Storage" where
  "setItem st k v =
     (if \<not> accessible st then Inl SecurityError
      else if used (AList.update k v (entries st)) > quota st then Inl QuotaExceededError
      else Inr (st\<lparr>entries := AList.update k v (entries st)\<rparr>))"

section \<open>JSON\<close>

text \<open>
  The values that \<open>JSON.parse\<close> can return. An object is the list of its properties in
  their order. A number is kept as the text of its literal: the double that the literal
  denotes is not modelled, and no item of this program has a number field.
\<close>

datatype JSValue =
    JNull
  | JBool bool
  | JNumber jstring
  | JString jstring
  | JArray "JSValue list"
  | JObject "(jstring \<times> JSValue) list"

subsection \<open>\<open>JSON.stringify\<close>\<close>

text \<open>
  \<open>QuoteJSONString\<close> of ECMAScript: the string is read as code points, so that a leading
  surrogate followed by a trailing one stays as it is; quotation mark, backslash and the
  control characters with a short form get that form; the other code units below
  \<open>0x20\<close> and the surrogates that stand alone become \<open>\uXXXX\<close> with lower-case
  hexadecimal digits.
\<close>

definition hexDigit :: "nat \<Rightarrow> 16 word" where
  "hexDigit n = (if n < 10 then 0x30 + of_nat n else 0x61 + of_nat (n - 10))"

definition UnicodeEscape :: "16 word \<Rightarrow> jstring" where
  "UnicodeEscape c =
     [0x5C, 0x75, hexDigit (unat c div 4096), hexDigit (unat c div 256 mod 16),
      hexDigit (unat c div 16 mod 16), hexDigit (unat c mod 16)]"

definition isLeadingSurrogate :: "16 word \<Rightarrow> bool" where
  "isLeadingSurrogate c \<longleftrightarrow> 0xD800 \<le> c \<and> c \<le> 0xDBFF"

definition isTrailingSurrogate :: "16 word \<Rightarrow> bool" where
  "isTrailingSurrogate c \<longleftrightarrow> 0xDC00 \<le> c \<and> c \<le> 0xDFFF"

definition quoteUnit :: "16 word \<Rightarrow> jstring" where
  "quoteUnit c =
     (if c = 0x08 then [0x5C, 0x62]
      else if c = 0x09 then [0x5C, 0x74]
      else if c = 0x0A then [0x5C, 0x6E]
      else if c = 0x0C then [0x5C, 0x66]
      else if c = 0x0D then [0x5C, 0x72]
      else if c = 0x22 then [0x5C, 0x22]
      else if c = 0x5C then [0x5C, 0x5C]
      else if c < 0x20 \<or> isLeadingSurrogate c \<or> isTrailingSurrogate c then UnicodeEscape c
      else [c])"

fun quoteChars :: "jstring \<Rightarrow> jstring" where
  "quoteChars [] = []"
| "quoteChars [c] = quoteUnit c"
| "quoteChars (c # d # cs) =
     (if isLeadingSurrogate c \<and> isTrailingSurrogate d then c # d # quoteChars cs
      else quoteUnit c @ quoteChars (d # cs))"

definition QuoteJSONString :: "jstring \<Rightarrow> jstring" where
  "QuoteJSONString s = 0x22 # quoteChars s @ [0x22]"

text \<open>\<open>Array.prototype.join\<close> on strings.\<close>

fun join :: "jstring \<Rightarrow> jstring list \<Rightarrow> jstring" where
  "join sep [] = []"
| "join sep [x] = x"
| "join sep (x # y # ys) = x @ sep @ join sep (y # ys)"

text \<open>
  \<open>JSON.stringify\<close> with one argument (no replacer, no indentation), on the values above:
  \<open>SerializeJSONArray\<close> and \<open>SerializeJSONObject\<close> join the parts with a comma.
\<close>

fun JSON_stringify :: "JSValue \<Rightarrow> jstring" where
  "JSON_stringify JNull = js ''null''"
| "JSON_stringify (JBool b) = (if b then js ''true'' else js ''false'')"
| "JSON_stringify (JNumber lexeme) = lexeme"
| "JSON_stringify (JString s) = QuoteJSONString s"
| "JSON_stringify (JArray vs) = [0x5B] @ join [0x2C] (map JSON_stringify vs) @ [0x5D]"
| "JSON_stringify (JObject ms) =
     [0x7B] @ join [0x2C] (map (\<lambda>kv. QuoteJSONString (fst kv) @ [0x3A] @ JSON_stringify (snd kv)) ms)
     @ [0x7D]"

subsection \<open>\<open>JSON.parse\<close>\<close>

text \<open>
  \<open>JSON.parse\<close> as a pushdown automaton over the code units of the text, one step per
  unit, for the grammar of ECMA-404. A frame of the stack is an array or an object under
  construction; \<open>FMem\<close> is an object whose next key has been read and waits for its
  value. A repeated key overwrites the value of the first occurrence. (The reordering
  of integer-like keys in a JavaScript object is not modelled.)
\<close>

datatype Frame =
    FArr "JSValue list"
  | FObj "(jstring \<times> JSValue) list"
  | FMem "(jstring \<times> JSValue) list" jstring

datatype NumPhase = NMinus | NZero | NInt | NDot | NFrac | NExp | NExpSign | NExpDigits

datatype Mode =
    MValue
  | MFirstElem
  | MFirstKey
  | MKey
  | MColon
  | MAfter
  | MString jstring
  | MEscape jstring
  | MHex jstring nat nat
  | MLiteral jstring JSValue
  | MNumber NumPhase jstring
  | MDone JSValue

definition isJSONWhiteSpace :: "16 word \<Rightarrow> bool" where
  "isJSONWhiteSpace c \<longleftrightarrow> c = 0x09 \<or> c = 0x0A \<or> c = 0x0D \<or> c = 0x20"

definition isDigit :: "16 word \<Rightarrow> bool" where
  "isDigit c \<longleftrightarrow> 0x30 \<le> c \<and> c \<le> 0x39"

definition hexValue :: "16 word \<Rightarrow> nat option" where
  "hexValue c =
     (if 0x30 \<le> c \<and> c \<le> 0x39 then Some (unat c - 0x30)
      else if 0x41 \<le> c \<and> c \<le> 0x46 then Some (unat c - 0x41 + 10)
      else if 0x61 \<le> c \<and> c \<le> 0x66 then Some (unat c - 0x61 + 10)
      else None)"

text \<open>A finished value goes to the frame on top of the stack.\<close>

fun deliver :: "JSValue \<Rightarrow> Frame list \<Rightarrow> (Mode \<times> Frame list) option" where
  "deliver v [] = Some (MDone v, [])"
| "deliver v (FArr es # K) = Some (MAfter, FArr (es @ [v]) # K)"
| "deliver v (FMem ms k # K) = Some (MAfter, FObj (AList.update k v ms) # K)"
| "deliver v (FObj ms # K) = None"

text \<open>The closing quotation mark: the string is a key when an object waits for one.\<close>

fun closeString :: "jstring \<Rightarrow> Frame list \<Rightarrow> (Mode \<times> Frame list) option" where
  "closeString s (FObj ms # K) = Some (MColon, FMem ms s # K)"
| "closeString s K = deliver (JString s) K"

text \<open>The first code unit of a value.\<close>

definition startValue :: "Frame list \<Rightarrow> 16 word \<Rightarrow> (Mode \<times> Frame list) option" where
  "startValue K c =
     (if c = 0x22 then Some (MString [], K)
      else if c = 0x5B then Some (MFirstElem, FArr [] # K)
      else if c = 0x7B then Some (MFirstKey, FObj [] # K)
      else if c = 0x74 then Some (MLiteral (js ''rue'') (JBool True), K)
      else if c = 0x66 then Some (MLiteral (js ''alse'') (JBool False), K)
      else if c = 0x6E then Some (MLiteral (js ''ull'') JNull, K)
      else if c = 0x2D then Some (MNumber NMinus [c], K)
      else if c = 0x30 then Some (MNumber NZero [c], K)
      else if isDigit c then Some (MNumber NInt [c], K)
      else None)"

text \<open>After a value: white space, a comma or the closing bracket of the frame on top.\<close>

fun afterValue :: "Mode \<Rightarrow> Frame list \<Rightarrow> 16 word \<Rightarrow> (Mode \<times> Frame list) option" where
  "afterValue (MDone v) K c = (if isJSONWhiteSpace c \<and> K = [] then Some (MDone v, K) else None)"
| "afterValue MAfter (FArr es # K) c =
     (if isJSONWhiteSpace c then Some (MAfter, FArr es # K)
      else if c = 0x2C then Some (MValue, FArr es # K)
      else if c = 0x5D then deliver (JArray es) K
      else None)"
| "afterValue MAfter (FObj ms # K) c =
     (if isJSONWhiteSpace c then Some (MAfter, FObj ms # K)
      else if c = 0x2C then Some (MKey, FObj ms # K)
      else if c = 0x7D then deliver (JObject ms) K
      else None)"
| "afterValue m K c = None"

text \<open>A number ends at the first code unit that cannot continue it; that unit is read after the value.\<close>

definition endNumber :: "jstring \<Rightarrow> Frame list \<Rightarrow> 16 word \<Rightarrow> (Mode \<times> Frame list) option" where
  "endNumber lexeme K c =
     (case deliver (JNumber lexeme) K of
        None \<Rightarrow> None
      | Some (m, K') \<Rightarrow> afterValue m K' c)"

fun stepNumber :: "NumPhase \<Rightarrow> jstring \<Rightarrow> Frame list \<Rightarrow> 16 word \<Rightarrow> (Mode \<times> Frame list) option" where
  "stepNumber NMinus l K c =
     (if c = 0x30 then Some (MNumber NZero (l @ [c]), K)
      else if isDigit c then Some (MNumber NInt (l @ [c]), K)
      else None)"
| "stepNumber NZero l K c =
     (if c = 0x2E then Some (MNumber NDot (l @ [c]), K)
      else if c = 0x65 \<or> c = 0x45 then Some (MNumber NExp (l @ [c]), K)
      else endNumber l K c)"
| "stepNumber NInt l K c =
     (if isDigit c then Some (MNumber NInt (l @ [c]), K)
      else if c = 0x2E then Some (MNumber NDot (l @ [c]), K)
      else if c = 0x65 \<or> c = 0x45 then Some (MNumber NExp (l @ [c]), K)
      else endNumber l K c)"
| "stepNumber NDot l K c =
     (if isDigit c then Some (MNumber NFrac (l @ [c]), K) else None)"
| "stepNumber NFrac l K c =
     (if isDigit c then Some (MNumber NFrac (l @ [c]), K)
      else if c = 0x65 \<or> c = 0x45 then Some (MNumber NExp (l @ [c]), K)
      else endNumber l K c)"
| "stepNumber NExp l K c =
     (if c = 0x2B \<or> c = 0x2D then Some (MNumber NExpSign (l @ [c]), K)
      else if isDigit c then Some (MNumber NExpDigits (l @ [c]), K)
      else None)"
| "stepNumber NExpSign l K c =
     (if isDigit c then Some (MNumber NExpDigits (l @ [c]), K) else None)"
| "stepNumber NExpDigits l K c =
     (if isDigit c then Some (MNumber NExpDigits (l @ [c]), K) else endNumber l K c)"

text \<open>One step of the automaton.\<close>

fun step :: "Mode \<Rightarrow> Frame list \<Rightarrow> 16 word \<Rightarrow> (Mode \<times> Frame list) option" where
  "step MValue K c = (if isJSONWhiteSpace c then Some (MValue, K) else startValue K c)"
| "step MFirstElem K c =
     (if isJSONWhiteSpace c then Some (MFirstElem, K)
      else if c = 0x5D then deliver (JArray []) (tl K)
      else startValue K c)"
| "step MFirstKey K c =
     (if isJSONWhiteSpace c then Some (MFirstKey, K)
      else if c = 0x7D then deliver (JObject []) (tl K)
      else if c = 0x22 then Some (MString [], K)
      else None)"
| "step MKey K c =
     (if isJSONWhiteSpace c then Some (MKey, K)
      else if c = 0x22 then Some (MString [], K)
      else None)"
| "step MColon K c =
     (if isJSONWhiteSpace c then Some (MColon, K)
      else if c = 0x3A then Some (MValue, K)
      else None)"
| "step MAfter K c = afterValue MAfter K c"
| "step (MDone v) K c = afterValue (MDone v) K c"
| "step (MString s) K c =
     (if c = 0x22 then closeString s K
      else if c = 0x5C then Some (MEscape s, K)
      else if c < 0x20 then None
      else Some (MString (s @ [c]), K))"
| "step (MEscape s) K c =
     (if c = 0x22 \<or> c = 0x5C \<or> c = 0x2F then Some (MString (s @ [c]), K)
      else if c = 0x62 then Some (MString (s @ [0x08]), K)
      else if c = 0x66 then Some (MString (s @ [0x0C]), K)
      else if c = 0x6E then Some (MString (s @ [0x0A]), K)
      else if c = 0x72 then Some (MString (s @ [0x0D]), K)
      else if c = 0x74 then Some (MString (s @ [0x09]), K)
      else if c = 0x75 then Some (MHex s 0 0, K)
      else None)"
| "step (MHex s count val) K c =
     (case hexValue c of
        None \<Rightarrow> None
      | Some d \<Rightarrow>
          if count = 3 then Some (MString (s @ [of_nat (val * 16 + d)]), K)
          else Some (MHex s (count + 1) (val * 16 + d), K))"
| "step (MLiteral rest v) K c =
     (case rest of
        [] \<Rightarrow> None
      | r # rs \<Rightarrow> if c \<noteq> r then None else if rs = [] then deliver v K else Some (MLiteral rs v, K))"
| "step (MNumber phase lexeme) K c = stepNumber phase lexeme K c"

fun run :: "Mode \<times> Frame list \<Rightarrow> jstring \<Rightarrow> (Mode \<times> Frame list) option" where
  "run st [] = Some st"
| "run st (c # cs) = (case step (fst st) (snd st) c of None \<Rightarrow> None | Some st' \<Rightarrow> run st' cs)"

text \<open>The end of the text: a complete top-level value, or a top-level number that the end closes.\<close>

fun finish :: "Mode \<times> Frame list \<Rightarrow> JSValue option" where
  "finish (MDone v, K) = Some v"
| "finish (MNumber phase lexeme, K) =
     (if K = [] \<and> (phase = NZero \<or> phase = NInt \<or> phase = NFrac \<or> phase = NExpDigits)
      then Some (JNumber lexeme) else None)"
| "finish st = None"

text \<open>\<open>None\<close> is the \<open>SyntaxError\<close> that \<open>JSON.parse\<close> throws.\<close>

definition JSON_parse :: "jstring \<Rightarrow> JSValue option" where
  "JSON_parse text = (case run (MValue, []) text of None \<Rightarrow> None | Some st \<Rightarrow> finish st)"

section \<open>Persistence\<close>

definition STORAGE_TODOS :: jstring where
  "STORAGE_TODOS = js ''darktodo_todos''"

definition STORAGE_DARKMODE :: jstring where
  "STORAGE_DARKMODE = js ''darktodo_darkmode''"

text \<open>
  A \<open>Todo\<close> as the runtime value it is: the object literal of \<open>addTodo\<close> has its
  properties in this order, and the spread in \<open>toggleTodo\<close> keeps it. (The type
  \<open>Todo\<close> does not record the order of the properties; an object that was loaded
  from a text with another order is written back in that order.)
\<close>

definition Todo_value :: "Todo \<Rightarrow> JSValue" where
  "Todo_value t =
     JObject [(js ''id'', JString (id' t)), (js ''text'', JString (text' t)),
              (js ''completed'', JBool (completed t)), (js ''createdAt'', JString (createdAt t))]"

definition Todos_value :: "Todo list \<Rightarrow> JSValue" where
  "Todos_value ts = JArray (map Todo_value ts)"

text \<open>
  \<open>loadTodos\<close> returns what \<open>JSON.parse\<close> gives: the cast \<open>as Todo[]\<close> checks nothing
  at run time. \<open>!raw\<close> holds for \<open>null\<close> and for the empty string. The \<open>catch\<close> takes
  the exception of \<open>getItem\<close> and the \<open>SyntaxError\<close> of \<open>JSON.parse\<close> alike.
\<close>

definition loadTodos :: "Storage \<Rightarrow> JSValue" where
  "loadTodos st =
     (case getItem st STORAGE_TODOS of
        Inl err \<Rightarrow> JArray []
      | Inr None \<Rightarrow> JArray []
      | Inr (Some raw) \<Rightarrow>
          if raw = [] then JArray []
          else (case JSON_parse raw of None \<Rightarrow> JArray [] | Some v \<Rightarrow> v))"

text \<open>\<open>saveTodos\<close> logs a failure of \<open>setItem\<close> and goes on: the storage is as before.\<close>

definition saveTodos :: "Todo list \<Rightarrow> Storage \<Rightarrow> Storage" where
  "saveTodos ts st =
     (case setItem st STORAGE_TODOS (JSON_stringify (Todos_value ts)) of
        Inl err \<Rightarrow> st
      | Inr st' \<Rightarrow> st')"

definition loadDarkMode :: "Storage \<Rightarrow> bool" where
  "loadDarkMode st =
     (case getItem st STORAGE_DARKMODE of
        Inl err \<Rightarrow> True
      | Inr None \<Rightarrow> True
      | Inr (Some raw) \<Rightarrow> raw = js ''true'')"

text \<open>\<open>String(darkMode)\<close>\<close>

definition String_of_bool :: "bool \<Rightarrow> jstring" where
  "String_of_bool b = (if b then js ''true'' else js ''false'')"

definition saveDarkMode :: "bool \<Rightarrow> Storage \<Rightarrow> Storage" where
  "saveDarkMode d st =
     (case setItem st STORAGE_DARKMODE (String_of_bool d) of
        Inl err \<Rightarrow> st
      | Inr st' \<Rightarrow> st')"

text \<open>
  The two effects of the component write the list and the flag; \<open>persist\<close> is both, in
  the order of the source.
\<close>

definition persist :: "App \<Rightarrow> Storage \<Rightarrow> Storage" where
  "persist s st = saveDarkMode (darkMode s) (saveTodos (todos s) st)"

text \<open>
  The typed reading of a loaded value: a value inhabits \<open>Todo[]\<close> when it is an array of
  objects that have the four properties with a string, a string, a boolean and a string.
  \<open>None\<close> is a value outside the declared type, on which the component's behaviour is
  not modelled.
\<close>

fun as_Todo :: "JSValue \<Rightarrow> Todo option" where
  "as_Todo (JObject ms) =
     (case (map_of ms (js ''id''), map_of ms (js ''text''),
            map_of ms (js ''completed''), map_of ms (js ''createdAt'')) of
        (Some (JString i), Some (JString t), Some (JBool c), Some (JString d)) \<Rightarrow>
          Some \<lparr>id' = i, text' = t, completed = c, createdAt = d\<rparr>
      | _ \<Rightarrow> None)"
| "as_Todo v = None"

fun as_Todos :: "JSValue \<Rightarrow> Todo list option" where
  "as_Todos (JArray vs) = those (map as_Todo vs)"
| "as_Todos v = None"

text \<open>
  The state of a freshly mounted component: \<open>useState(loadTodos)\<close>,
  \<open>useState(loadDarkMode)\<close>, \<open>useState('all')\<close>, \<open>useState('')\<close>.
\<close>

definition mount :: "Storage \<Rightarrow> App option" where
  "mount st =
     (case as_Todos (loadTodos st) of
        None \<Rightarrow> None
      | Some ts \<Rightarrow> Some \<lparr>todos = ts, darkMode = loadDarkMode st, filter' = F_all, inputValue = []\<rparr>)"

text \<open>The entry of the theme record as section 6 of the spec words it: the text \<open>true\<close> or \<open>false\<close>.\<close>

definition spec_theme_entry_parses :: "jstring \<Rightarrow> bool" where
  "spec_theme_entry_parses raw \<longleftrightarrow> raw = js ''true'' \<or> raw = js ''false''"

text \<open>Sample storages.\<close>

definition emptyStorage :: Storage where
  "emptyStorage = \<lparr>accessible = True, quota = 5242880, entries = []\<rparr>"

definition fullStorage :: Storage where
  "fullStorage = \<lparr>accessible = True, quota = 0, entries = []\<rparr>"

definition deniedStorage :: Storage where
  "deniedStorage = \<lparr>accessible = False, quota = 5242880, entries = []\<rparr>"

text \<open>A storage whose task-list entry is not JSON and whose theme entry is \<open>false\<close>.\<close>

definition corruptStorage :: Storage where
  "corruptStorage =
     \<lparr>accessible = True, quota = 5242880,
      entries = [(STORAGE_TODOS, js ''{not json''), (STORAGE_DARKMODE, js ''false'')]\<rparr>"

text \<open>A storage whose theme entry is neither \<open>true\<close> nor \<open>false\<close>.\<close>

definition malformedThemeStorage :: Storage where
  "malformedThemeStorage =
     \<lparr>accessible = True, quota = 5242880, entries = [(STORAGE_DARKMODE, js ''dark'')]\<rparr>"

section \<open>Sample states\<close>

text \<open>A state with two items of distinct ids, the second one completed.\<close>

definition demo :: App where
  "demo = \<lparr>todos = [\<lparr>id' = js ''a'', text' = js ''Buy milk'', completed = False, createdAt = js ''t1''\<rparr>,
                     \<lparr>id' = js ''b'', text' = js ''Walk'', completed = True, createdAt = js ''t2''\<rparr>],
           darkMode = True, filter' = F_active, inputValue = []\<rparr>"

text \<open>A state whose two items carry the same id.\<close>

definition twins :: App where
  "twins = \<lparr>todos = [\<lparr>id' = js ''a'', text' = js ''x'', completed = False, createdAt = js ''t1''\<rparr>,
                      \<lparr>id' = js ''a'', text' = js ''y'', completed = False, createdAt = js ''t2''\<rparr>],
            darkMode = True, filter' = F_all, inputValue = []\<rparr>"

text \<open>A storage that holds the list of \<open>twins\<close>, as \<open>saveTodos\<close> writes it.\<close>

definition twinsStorage :: Storage where
  "twinsStorage =
     \<lparr>accessible = True, quota = 5242880,
      entries = [(STORAGE_TODOS, JSON_stringify (Todos_value (todos twins)))]\<rparr>"

text \<open>Three calls of \<open>addTask\<close>: padded text, blank text, plain text.\<close>

definition sampleCalls :: "(jstring \<times> jstring \<times> jstring) list" where
  "sampleCalls = [(js ''c'', js ''t3'', js '' Walk ''), (js ''d'', js ''t4'', js ''   ''),
                  (js ''e'', js ''t5'', js ''Buy milk'')]"

section \<open>\<open>JSON.parse\<close> after \<open>JSON.stringify\<close>\<close>

subsection \<open>Strings\<close>

lemma run_append: "run st (xs @ ys) = (case run st xs of None \<Rightarrow> None | Some st' \<Rightarrow> run st' ys)"
  by (induction xs arbitrary: st) (simp_all split: option.splits)

lemma hexValue_hexDigit_all: "list_all (\<lambda>n. hexValue (hexDigit n) = Some n) [0..<16]"
  by code_simp

lemma hexValue_hexDigit: "n < 16 \<Longrightarrow> hexValue (hexDigit n) = Some n"
  using hexValue_hexDigit_all unfolding list_all_iff by simp

lemma hex_digits_nat:
  "(((0 * 16 + n div 4096) * 16 + n div 256 mod 16) * 16 + n div 16 mod 16) * 16 + n mod 16 = (n::nat)"
proof -
  have a: "n div 256 = n div 16 div 16" "n div 4096 = n div 16 div 16 div 16"
    by (simp_all add: div_mult2_eq [symmetric])
  have b: "m div 16 * 16 + m mod 16 = m" for m :: nat
    by (rule div_mult_mod_eq)
  show ?thesis
    unfolding a by (simp only: b mult_0 add_0)
qed

lemma hex_digits_value:
  "of_nat ((((0 * 16 + unat c div 4096) * 16 + unat c div 256 mod 16) * 16 + unat c div 16 mod 16) * 16
     + unat c mod 16) = (c :: 16 word)"
  unfolding hex_digits_nat by simp

lemma run_UnicodeEscape:
  "run (MString s, K) (UnicodeEscape c) = Some (MString (s @ [c]), K)"
proof -
  have lt: "unat c div 4096 < 16" "unat c div 256 mod 16 < 16" "unat c div 16 mod 16 < 16" "unat c mod 16 < 16"
    using unsigned_less [of c, where 'a = nat] by simp_all
  show ?thesis
    using hex_digits_value [of c]
    by (simp add: UnicodeEscape_def hexValue_hexDigit lt)
qed

lemma surrogate_plain:
  "isLeadingSurrogate c \<or> isTrailingSurrogate c \<Longrightarrow> c \<noteq> 0x22 \<and> c \<noteq> 0x5C \<and> \<not> c < 0x20"
  unfolding isLeadingSurrogate_def isTrailingSurrogate_def word_le_nat_alt word_less_nat_alt
  by auto

lemma step_plain:
  "c \<noteq> 0x22 \<and> c \<noteq> 0x5C \<and> \<not> c < 0x20 \<Longrightarrow> step (MString s) K c = Some (MString (s @ [c]), K)"
  by simp

lemma run_single: "run st [c] = step (fst st) (snd st) c"
  by (simp split: option.splits)

lemma run_quoteUnit:
  "run (MString s, K) (quoteUnit c) = Some (MString (s @ [c]), K)"
proof -
  consider (short) "c = 0x08 \<or> c = 0x09 \<or> c = 0x0A \<or> c = 0x0C \<or> c = 0x0D \<or> c = 0x22 \<or> c = 0x5C"
    | (escape) "\<not> (c = 0x08 \<or> c = 0x09 \<or> c = 0x0A \<or> c = 0x0C \<or> c = 0x0D \<or> c = 0x22 \<or> c = 0x5C)"
        "c < 0x20 \<or> isLeadingSurrogate c \<or> isTrailingSurrogate c"
    | (plain) "\<not> (c = 0x08 \<or> c = 0x09 \<or> c = 0x0A \<or> c = 0x0C \<or> c = 0x0D \<or> c = 0x22 \<or> c = 0x5C)"
        "\<not> (c < 0x20 \<or> isLeadingSurrogate c \<or> isTrailingSurrogate c)"
    by blast
  then show ?thesis
  proof cases
    case short
    then show ?thesis
      by (elim disjE) (simp_all add: quoteUnit_def)
  next
    case escape
    then have "quoteUnit c = UnicodeEscape c"
      by (simp add: quoteUnit_def)
    then show ?thesis
      by (simp only: run_UnicodeEscape)
  next
    case plain
    then have q: "quoteUnit c = [c]"
      by (simp add: quoteUnit_def)
    have "step (MString s) K c = Some (MString (s @ [c]), K)"
      using plain by (intro step_plain) blast
    then show ?thesis
      unfolding q by (simp only: run_single fst_conv snd_conv)
  qed
qed

lemma run_quoteChars:
  "run (MString s, K) (quoteChars cs @ rest) = run (MString (s @ cs), K) rest"
proof (induction cs arbitrary: s rule: quoteChars.induct)
  case 1
  show ?case by simp
next
  case (2 c)
  show ?case
    by (simp add: run_append run_quoteUnit)
next
  case (3 c d cs)
  show ?case
  proof (cases "isLeadingSurrogate c \<and> isTrailingSurrogate d")
    case True
    have q: "quoteChars (c # d # cs) = c # d # quoteChars cs"
      using True by simp
    have c: "step (MString s) K c = Some (MString (s @ [c]), K)"
      using True surrogate_plain [of c] by (intro step_plain) blast
    have d: "step (MString (s @ [c])) K d = Some (MString ((s @ [c]) @ [d]), K)"
      using True surrogate_plain [of d] by (intro step_plain) blast
    have "run (MString s, K) (quoteChars (c # d # cs) @ rest)
          = run (MString ((s @ [c]) @ [d]), K) (quoteChars cs @ rest)"
      unfolding q using c d by (simp del: step.simps)
    also have "\<dots> = run (MString (((s @ [c]) @ [d]) @ cs), K) rest"
      by (rule "3.IH"(1) [OF True])
    finally show ?thesis by (simp only: append_assoc append_Cons append_Nil)
  next
    case False
    have q: "quoteChars (c # d # cs) = quoteUnit c @ quoteChars (d # cs)"
      by (simp only: quoteChars.simps False if_False)
    have "run (MString s, K) (quoteChars (c # d # cs) @ rest)
          = run (MString (s @ [c]), K) (quoteChars (d # cs) @ rest)"
      unfolding q by (simp only: append_assoc run_append [of _ "quoteUnit c"] run_quoteUnit option.case)
    also have "\<dots> = run (MString ((s @ [c]) @ d # cs), K) rest"
      by (rule "3.IH"(2) [OF False])
    finally show ?thesis by (simp only: append_assoc append_Cons append_Nil)
  qed
qed

subsection \<open>Members of an object\<close>

lemma run_Cons: "run st (c # cs) = (case step (fst st) (snd st) c of None \<Rightarrow> None | Some st' \<Rightarrow> run st' cs)"
  by simp

lemma run_string_body:
  "run (MString acc, K) (quoteChars s @ 0x22 # rest)
   = (case closeString (acc @ s) K of None \<Rightarrow> None | Some st \<Rightarrow> run st rest)"
proof -
  have "step (MString (acc @ s)) K 0x22 = closeString (acc @ s) K"
    by simp
  then show ?thesis
    by (simp only: run_quoteChars run_Cons fst_conv snd_conv)
qed

lemma QuoteJSONString_append: "QuoteJSONString s @ rest = 0x22 # quoteChars s @ 0x22 # rest"
  by (simp add: QuoteJSONString_def)

lemma step_open_quote:
  "step MValue K 0x22 = Some (MString [], K)"
  "step MFirstKey K 0x22 = Some (MString [], K)"
  "step MKey K 0x22 = Some (MString [], K)"
  by (simp_all add: isJSONWhiteSpace_def startValue_def)

lemma step_punct:
  "step MValue K 0x7B = Some (MFirstKey, FObj [] # K)"
  "step MFirstElem K 0x7B = Some (MFirstKey, FObj [] # K)"
  "step MValue K 0x5B = Some (MFirstElem, FArr [] # K)"
  "step MFirstElem (FArr [] # K) 0x5D = deliver (JArray []) K"
  "step MColon K 0x3A = Some (MValue, K)"
  "step MAfter (FObj ms # K) 0x2C = Some (MKey, FObj ms # K)"
  "step MAfter (FObj ms # K) 0x7D = deliver (JObject ms) K"
  "step MAfter (FArr es # K) 0x2C = Some (MValue, FArr es # K)"
  "step MAfter (FArr es # K) 0x5D = deliver (JArray es) K"
  by (simp_all add: isJSONWhiteSpace_def startValue_def)

text \<open>A string value, read where a value is expected inside an object member or an array.\<close>

lemma run_string_value:
  "run (MValue, FMem ms k # K) (QuoteJSONString s @ rest)
   = run (MAfter, FObj (AList.update k (JString s) ms) # K) rest"
  by (simp only: QuoteJSONString_append run_Cons fst_conv snd_conv step_open_quote option.case
      run_string_body append_Nil closeString.simps deliver.simps)

text \<open>A key and its colon.\<close>

lemma run_key:
  "m = MFirstKey \<or> m = MKey \<Longrightarrow>
   run (m, FObj ms # K) (QuoteJSONString k @ 0x3A # rest) = run (MValue, FMem ms k # K) rest"
  by (elim disjE)
    (simp_all only: QuoteJSONString_append run_Cons fst_conv snd_conv step_open_quote option.case
      run_string_body append_Nil closeString.simps step_punct)

lemma run_bool_value:
  "run (MValue, FMem ms k # K) (JSON_stringify (JBool b) @ rest)
   = run (MAfter, FObj (AList.update k (JBool b) ms) # K) rest"
  by (cases b) (simp_all add: js_def isJSONWhiteSpace_def startValue_def)

subsection \<open>Items and lists of items\<close>

lemmas run_key_first = run_key [of MFirstKey, simplified]
lemmas run_key_next = run_key [of MKey, simplified]

lemma stringify_Todo:
  "JSON_stringify (Todo_value t) =
     0x7B # QuoteJSONString (js ''id'') @ 0x3A # QuoteJSONString (id' t) @
     0x2C # QuoteJSONString (js ''text'') @ 0x3A # QuoteJSONString (text' t) @
     0x2C # QuoteJSONString (js ''completed'') @ 0x3A # JSON_stringify (JBool (completed t)) @
     0x2C # QuoteJSONString (js ''createdAt'') @ 0x3A # QuoteJSONString (createdAt t) @ [0x7D]"
  by (simp add: Todo_value_def)

lemma Todo_members:
  "AList.update (js ''createdAt'') (JString d)
     (AList.update (js ''completed'') (JBool c)
       (AList.update (js ''text'') (JString x)
         (AList.update (js ''id'') (JString i) [])))
   = [(js ''id'', JString i), (js ''text'', JString x), (js ''completed'', JBool c),
      (js ''createdAt'', JString d)]"
  by (simp add: js_def)

lemma run_Todo:
  assumes "m = MValue \<or> m = MFirstElem"
  shows "run (m, FArr es # K) (JSON_stringify (Todo_value t) @ rest)
         = run (MAfter, FArr (es @ [Todo_value t]) # K) rest"
proof -
  have "run (m, FArr es # K) (JSON_stringify (Todo_value t) @ rest)
        = run (MAfter, FArr (es @ [JObject
            (AList.update (js ''createdAt'') (JString (createdAt t))
              (AList.update (js ''completed'') (JBool (completed t))
                (AList.update (js ''text'') (JString (text' t))
                  (AList.update (js ''id'') (JString (id' t)) []))))]) # K) rest"
    using assms
    by (elim disjE)
      (simp_all only: stringify_Todo append_Cons append_assoc append_Nil run_Cons fst_conv snd_conv
        step_punct option.case run_key_first run_key_next run_string_value run_bool_value
        deliver.simps)
  then show ?thesis
    by (simp only: Todo_members Todo_value_def)
qed

lemma join_Cons: "join sep (x # xs) = x @ concat (map (\<lambda>y. sep @ y) xs)"
  by (induction xs arbitrary: x) simp_all

lemma stringify_Todos_Nil: "JSON_stringify (Todos_value []) = [0x5B, 0x5D]"
  by (simp add: Todos_value_def)

lemma stringify_Todos_Cons:
  "JSON_stringify (Todos_value (t # ts)) =
     0x5B # JSON_stringify (Todo_value t)
     @ concat (map (\<lambda>u. 0x2C # JSON_stringify (Todo_value u)) ts) @ [0x5D]"
  by (simp add: Todos_value_def join_Cons comp_def)

lemma run_more_Todos:
  "run (MAfter, FArr es # K) (concat (map (\<lambda>u. 0x2C # JSON_stringify (Todo_value u)) ts) @ rest)
   = run (MAfter, FArr (es @ map Todo_value ts) # K) rest"
proof (induction ts arbitrary: es)
  case Nil
  show ?case by simp
next
  case (Cons t ts)
  have "run (MAfter, FArr es # K)
          (concat (map (\<lambda>u. 0x2C # JSON_stringify (Todo_value u)) (t # ts)) @ rest)
        = run (MValue, FArr es # K)
          (JSON_stringify (Todo_value t)
           @ concat (map (\<lambda>u. 0x2C # JSON_stringify (Todo_value u)) ts) @ rest)"
    by (simp only: list.map concat.simps append_Cons append_assoc run_Cons fst_conv snd_conv
        step_punct option.case)
  also have "\<dots> = run (MAfter, FArr (es @ [Todo_value t]) # K)
          (concat (map (\<lambda>u. 0x2C # JSON_stringify (Todo_value u)) ts) @ rest)"
    by (rule run_Todo) simp
  also have "\<dots> = run (MAfter, FArr ((es @ [Todo_value t]) @ map Todo_value ts) # K) rest"
    by (rule Cons.IH)
  finally show ?case
    by (simp only: append_assoc append_Cons append_Nil list.map)
qed

lemma run_Todos:
  "run (MValue, []) (JSON_stringify (Todos_value ts)) = Some (MDone (Todos_value ts), [])"
proof (cases ts)
  case Nil
  show ?thesis
    unfolding Nil stringify_Todos_Nil
    by (simp only: run_Cons fst_conv snd_conv step_punct option.case deliver.simps run.simps
        Todos_value_def list.map)
next
  case (Cons t ts')
  have "run (MValue, []) (JSON_stringify (Todos_value (t # ts')))
        = run (MFirstElem, [FArr []])
            (JSON_stringify (Todo_value t)
             @ concat (map (\<lambda>u. 0x2C # JSON_stringify (Todo_value u)) ts') @ [0x5D])"
    by (simp only: stringify_Todos_Cons run_Cons fst_conv snd_conv step_punct option.case)
  also have "\<dots> = run (MAfter, [FArr ([] @ [Todo_value t])])
            (concat (map (\<lambda>u. 0x2C # JSON_stringify (Todo_value u)) ts') @ [0x5D])"
    by (rule run_Todo) simp
  also have "\<dots> = run (MAfter, [FArr (([] @ [Todo_value t]) @ map Todo_value ts')]) [0x5D]"
    by (rule run_more_Todos)
  also have "\<dots> = Some (MDone (Todos_value (t # ts')), [])"
    by (simp only: run_Cons fst_conv snd_conv step_punct option.case deliver.simps run.simps
        Todos_value_def list.map append_Nil append_Cons)
  finally show ?thesis
    unfolding Cons .
qed

lemma JSON_parse_stringify_Todos:
  "JSON_parse (JSON_stringify (Todos_value ts)) = Some (Todos_value ts)"
  by (simp add: JSON_parse_def run_Todos)

lemma stringify_Todos_nonempty: "JSON_stringify (Todos_value ts) \<noteq> []"
  by (simp add: Todos_value_def)

lemma as_Todo_value: "as_Todo (Todo_value t) = Some t"
  by (simp add: Todo_value_def js_def)

lemma as_Todos_value: "as_Todos (Todos_value ts) = Some ts"
proof -
  have "those (map as_Todo (map Todo_value ts)) = Some ts"
    by (induction ts) (simp_all add: as_Todo_value)
  then show ?thesis
    by (simp add: Todos_value_def)
qed

section \<open>Saving and loading\<close>

lemma storage_keys_differ: "STORAGE_TODOS \<noteq> STORAGE_DARKMODE"
  by (simp add: STORAGE_TODOS_def STORAGE_DARKMODE_def js_def)

lemma setItem_accepts:
  "accessible st \<Longrightarrow> used (AList.update k v (entries st)) \<le> quota st \<Longrightarrow>
     setItem st k v = Inr (st\<lparr>entries := AList.update k v (entries st)\<rparr>)"
  by (simp add: setItem_def)

lemma getItem_setItem_same: "setItem st k v = Inr st' \<Longrightarrow> getItem st' k = Inr (Some v)"
  by (auto simp: setItem_def getItem_def update_conv' split: if_splits)

lemma getItem_setItem_other:
  "setItem st k v = Inr st' \<Longrightarrow> k' \<noteq> k \<Longrightarrow> getItem st' k' = getItem st k'"
  by (auto simp: setItem_def getItem_def update_conv' split: if_splits)

lemma String_of_bool_true_iff: "String_of_bool d = js ''true'' \<longleftrightarrow> d"
  by (simp add: String_of_bool_def js_def)

lemma loadTodos_stored:
  "getItem st STORAGE_TODOS = Inr (Some (JSON_stringify (Todos_value ts))) \<Longrightarrow>
     loadTodos st = Todos_value ts"
  by (simp add: loadTodos_def stringify_Todos_nonempty JSON_parse_stringify_Todos)

lemma loadDarkMode_stored:
  "getItem st STORAGE_DARKMODE = Inr (Some (String_of_bool d)) \<Longrightarrow> loadDarkMode st = d"
  by (simp add: loadDarkMode_def String_of_bool_true_iff)


text \<open>
  Claim C2, as stated, at a storage whose theme entry is the text \<open>dark\<close>: the entry is
  there, it is not one of the two texts of the record layout, and \<open>loadDarkMode\<close> compares
  it with \<open>true\<close> and answers light, not dark.
\<close>

theorem loadDarkMode_malformed_counterexample:
  "\<not> spec_theme_entry_parses (js ''dark'')
   \<and> getItem malformedThemeStorage STORAGE_DARKMODE = Inr (Some (js ''dark''))
   \<and> loadDarkMode malformedThemeStorage = False"
  by (simp add: spec_theme_entry_parses_def loadDarkMode_def getItem_def malformedThemeStorage_def js_def)

text \<open>
  Claim C2, amended. \<open>loadTodos\<close> gives the empty list when reading the entry raises, when
  the entry is absent or empty, and when \<open>JSON.parse\<close> rejects it. \<open>loadDarkMode\<close> gives
  dark when reading the entry raises and when the entry is absent; an entry that is
  present gives dark exactly when its text is \<open>true\<close>, so any other text gives light.
\<close>

theorem load_defaults:
  "(getItem st STORAGE_TODOS = Inl e \<or> getItem st STORAGE_TODOS = Inr None
      \<or> getItem st STORAGE_TODOS = Inr (Some [])
      \<or> (getItem st STORAGE_TODOS = Inr (Some raw) \<and> JSON_parse raw = None)
     \<longrightarrow> loadTodos st = JArray [] \<and> as_Todos (loadTodos st) = Some [])
   \<and> (getItem st STORAGE_DARKMODE = Inl e' \<or> getItem st STORAGE_DARKMODE = Inr None
     \<longrightarrow> loadDarkMode st = True)
   \<and> (getItem st STORAGE_DARKMODE = Inr (Some raw') \<longrightarrow> loadDarkMode st = (raw' = js ''true''))"
  by (auto simp: loadTodos_def loadDarkMode_def)

theorem load_defaults_witness:
  "JSON_parse (js ''{not json'') = None
   \<and> loadTodos corruptStorage = JArray []
   \<and> loadTodos emptyStorage = JArray []
   \<and> loadTodos deniedStorage = JArray []
   \<and> loadDarkMode emptyStorage = True
   \<and> loadDarkMode deniedStorage = True
   \<and> loadDarkMode corruptStorage = False"
proof -
  have keys: "STORAGE_DARKMODE \<noteq> STORAGE_TODOS"
    by (simp add: STORAGE_TODOS_def STORAGE_DARKMODE_def js_def)
  have unparseable: "JSON_parse (js ''{not json'') = None"
    by (simp add: JSON_parse_def js_def isJSONWhiteSpace_def startValue_def)
  have corrupt: "getItem corruptStorage STORAGE_TODOS = Inr (Some (js ''{not json''))"
    "getItem corruptStorage STORAGE_DARKMODE = Inr (Some (js ''false''))"
    using keys by (simp_all add: getItem_def corruptStorage_def)
  have absent: "getItem emptyStorage STORAGE_TODOS = Inr None"
    "getItem emptyStorage STORAGE_DARKMODE = Inr None"
    by (simp_all add: getItem_def emptyStorage_def)
  have denied: "getItem deniedStorage STORAGE_TODOS = Inl SecurityError"
    "getItem deniedStorage STORAGE_DARKMODE = Inl SecurityError"
    by (simp_all add: getItem_def deniedStorage_def)
  have light: "js ''false'' \<noteq> js ''true''"
    by (simp add: js_def)
  show ?thesis
    using load_defaults [where st = corruptStorage and raw = "js ''{not json''" and raw' = "js ''false''"]
      load_defaults [where st = emptyStorage]
      load_defaults [where st = deniedStorage and e = SecurityError and e' = SecurityError]
      unparseable corrupt absent denied light
    by simp
qed

text \<open>
  Claim C3, as stated, at a storage that takes no write (its quota is used up): both
  \<open>setItem\<close> calls raise, \<open>saveTodos\<close> and \<open>saveDarkMode\<close> swallow the exception, and the
  reload finds no entry. The two items of \<open>demo\<close> come back as the empty list, and the
  light theme comes back as dark.
\<close>

theorem save_then_load_rejected_counterexample:
  "todos demo \<noteq> []
   \<and> persist demo fullStorage = fullStorage
   \<and> loadTodos (persist demo fullStorage) = JArray []
   \<and> loadTodos (persist demo fullStorage) \<noteq> Todos_value (todos demo)
   \<and> mount (persist demo fullStorage) \<noteq> Some (demo\<lparr>filter' := F_all\<rparr>)
   \<and> darkMode (toggleDarkMode demo) = False
   \<and> loadDarkMode (persist (toggleDarkMode demo) fullStorage) = True"
proof -
  have rejected: "setItem fullStorage k v = Inl QuotaExceededError" if "k \<noteq> []" for k v
    using that by (simp add: setItem_def fullStorage_def used_def)
  have keys: "STORAGE_TODOS \<noteq> []" "STORAGE_DARKMODE \<noteq> []"
    by (simp_all add: STORAGE_TODOS_def STORAGE_DARKMODE_def js_def)
  have p: "persist s fullStorage = fullStorage" for s
    by (simp add: persist_def saveTodos_def saveDarkMode_def rejected keys)
  have l: "loadTodos fullStorage = JArray []" "loadDarkMode fullStorage = True"
    by (simp_all add: loadTodos_def loadDarkMode_def getItem_def fullStorage_def)
  have m: "mount fullStorage = Some \<lparr>todos = [], darkMode = True, filter' = F_all, inputValue = []\<rparr>"
    by (simp add: mount_def l)
  show ?thesis
    by (simp add: p l m) (simp add: demo_def Todos_value_def toggleDarkMode_def)
qed

text \<open>
  Claim C3, amended. Whenever the storage accepts the write of the list and then the write
  of the flag, a component mounted on the resulting storage loads the very list and the very
  flag that were saved: \<open>loadTodos\<close> returns the saved array, element for element, and
  \<open>loadDarkMode\<close> the saved flag; the filter and the input field, which are not persisted,
  start at \<open>all\<close> and empty.
\<close>

theorem save_then_load_roundtrip:
  assumes todos_written: "setItem st STORAGE_TODOS (JSON_stringify (Todos_value (todos s))) = Inr st1"
    and theme_written: "setItem st1 STORAGE_DARKMODE (String_of_bool (darkMode s)) = Inr st2"
  shows "persist s st = st2
       \<and> loadTodos (persist s st) = Todos_value (todos s)
       \<and> as_Todos (loadTodos (persist s st)) = Some (todos s)
       \<and> loadDarkMode (persist s st) = darkMode s
       \<and> mount (persist s st) = Some (s\<lparr>filter' := F_all, inputValue := []\<rparr>)"
proof -
  have p: "persist s st = st2"
    by (simp add: persist_def saveTodos_def saveDarkMode_def todos_written theme_written)
  have "getItem st2 STORAGE_TODOS = getItem st1 STORAGE_TODOS"
    using getItem_setItem_other [OF theme_written storage_keys_differ] .
  then have "getItem st2 STORAGE_TODOS = Inr (Some (JSON_stringify (Todos_value (todos s))))"
    by (simp only: getItem_setItem_same [OF todos_written])
  then have l: "loadTodos st2 = Todos_value (todos s)"
    by (rule loadTodos_stored)
  have d: "loadDarkMode st2 = darkMode s"
    using getItem_setItem_same [OF theme_written] by (rule loadDarkMode_stored)
  have m: "mount st2 = Some (s\<lparr>filter' := F_all, inputValue := []\<rparr>)"
    by (simp add: mount_def l d as_Todos_value)
  show ?thesis
    by (simp only: p l d m as_Todos_value simp_thms)
qed

theorem save_then_load_roundtrip_witness:
  "persist demo emptyStorage =
     emptyStorage\<lparr>entries := [(STORAGE_TODOS, JSON_stringify (Todos_value (todos demo))),
                                (STORAGE_DARKMODE, js ''true'')]\<rparr>
   \<and> loadTodos (persist demo emptyStorage) = Todos_value (todos demo)
   \<and> loadDarkMode (persist demo emptyStorage) = True
   \<and> mount (persist demo emptyStorage) = Some (demo\<lparr>filter' := F_all\<rparr>)"
proof -
  have len: "length (JSON_stringify (Todos_value (todos demo))) = 124"
    by code_simp
  have dm: "String_of_bool (darkMode demo) = js ''true''"
    by (simp add: String_of_bool_def demo_def)
  have w1: "setItem emptyStorage STORAGE_TODOS (JSON_stringify (Todos_value (todos demo)))
            = Inr (emptyStorage\<lparr>entries := [(STORAGE_TODOS, JSON_stringify (Todos_value (todos demo)))]\<rparr>)"
    by (simp add: setItem_def emptyStorage_def used_def len STORAGE_TODOS_def js_def)
  have w2: "setItem (emptyStorage\<lparr>entries := [(STORAGE_TODOS, JSON_stringify (Todos_value (todos demo)))]\<rparr>)
              STORAGE_DARKMODE (String_of_bool (darkMode demo))
            = Inr (emptyStorage\<lparr>entries := [(STORAGE_TODOS, JSON_stringify (Todos_value (todos demo))),
                                (STORAGE_DARKMODE, js ''true'')]\<rparr>)"
    using storage_keys_differ
    by (simp add: setItem_def emptyStorage_def used_def len dm)
      (simp add: STORAGE_TODOS_def STORAGE_DARKMODE_def js_def)
  have same: "demo\<lparr>filter' := F_all, inputValue := []\<rparr> = demo\<lparr>filter' := F_all\<rparr>"
    and dark: "darkMode demo = True"
    by (simp_all add: demo_def)
  from save_then_load_roundtrip [OF w1 w2]
  have r: "persist demo emptyStorage =
             emptyStorage\<lparr>entries := [(STORAGE_TODOS, JSON_stringify (Todos_value (todos demo))),
                                (STORAGE_DARKMODE, js ''true'')]\<rparr>"
    "loadTodos (persist demo emptyStorage) = Todos_value (todos demo)"
    "loadDarkMode (persist demo emptyStorage) = darkMode demo"
    "mount (persist demo emptyStorage) = Some (demo\<lparr>filter' := F_all, inputValue := []\<rparr>)"
    by blast+
  show ?thesis
    using r(1) r(2) r(3) [unfolded dark] r(4) [unfolded same] by blast
qed


section \<open>Adding items\<close>

lemma trim_blank_iff: "trim s = [] \<longleftrightarrow> list_all trimmable s"
proof
  assume "trim s = []"
  then have "dropWhile trimmable (rev (dropWhile trimmable s)) = []"
    by (simp add: trim_def)
  then have "\<forall>c \<in> set (dropWhile trimmable s). trimmable c"
    by simp
  then have "dropWhile trimmable s = []"
    by (metis hd_dropWhile list.set_sel(1))
  then show "list_all trimmable s"
    by (simp add: list_all_iff)
next
  assume "list_all trimmable s"
  then have "dropWhile trimmable s = []"
    by (simp add: list_all_iff)
  then show "trim s = []"
    by (simp add: trim_def del: dropWhile_eq_Nil_conv)
qed

lemma todos_addTodo:
  "todos (addTodo i n s) =
     (if trim (inputValue s) = [] then todos s
      else todos s @ [\<lparr>id' = i, text' = trim (inputValue s), completed = False, createdAt = n\<rparr>])"
  by (simp add: addTodo_def Let_def)

lemma todos_addTask:
  "todos (addTask i n t s) = (if nonblank (i, n, t) then todos s @ [newTodo (i, n, t)] else todos s)"
  by (simp add: addTask_def setInputValue_def todos_addTodo nonblank_def newTodo_def)

lemma todos_addTasks:
  "todos (addTasks calls s) = todos s @ map newTodo (filter nonblank calls)"
proof (induction calls arbitrary: s)
  case Nil
  show ?case by simp
next
  case (Cons call calls)
  obtain i n t where call: "call = (i, n, t)" by (cases call)
  show ?case
    unfolding call by (simp add: Cons.IH todos_addTask)
qed

lemma strip_end:
  "xs = rev (dropWhile P (rev xs)) @ rev (takeWhile P (rev xs))"
  by (metis rev_append rev_rev_ident takeWhile_dropWhile_id)

lemma trim_decomposition:
  "\<exists>pre post. t = pre @ trim t @ post \<and> list_all trimmable pre \<and> list_all trimmable post"
proof -
  have u: "dropWhile trimmable t = trim t @ rev (takeWhile trimmable (rev (dropWhile trimmable t)))"
    unfolding trim_def by (rule strip_end)
  have "takeWhile trimmable t @ dropWhile trimmable t
        = takeWhile trimmable t @ trim t @ rev (takeWhile trimmable (rev (dropWhile trimmable t)))"
    by (rule arg_cong [where f = "\<lambda>z. takeWhile trimmable t @ z", OF u])
  with takeWhile_dropWhile_id [of trimmable t, symmetric]
  have "t = takeWhile trimmable t @ trim t @ rev (takeWhile trimmable (rev (dropWhile trimmable t)))"
    by (rule trans)
  moreover have "list_all trimmable (takeWhile trimmable t)"
    by (auto simp: list_all_iff dest: set_takeWhileD)
  moreover have "list_all trimmable (rev (takeWhile trimmable (rev (dropWhile trimmable t))))"
    by (auto simp: list_all_iff dest: set_takeWhileD)
  ultimately show ?thesis by blast
qed

lemma trim_ends:
  assumes "trim t \<noteq> []"
  shows "\<not> trimmable (hd (trim t)) \<and> \<not> trimmable (last (trim t))"
proof -
  define u where "u = dropWhile trimmable t"
  have tr: "trim t = rev (dropWhile trimmable (rev u))"
    by (simp add: trim_def u_def)
  have d: "dropWhile trimmable (rev u) \<noteq> []"
    using assms tr by simp
  have "last (trim t) = hd (dropWhile trimmable (rev u))"
    using d by (simp add: tr last_rev)
  then have l: "\<not> trimmable (last (trim t))"
    using hd_dropWhile [OF d] by simp
  have u: "u = trim t @ rev (takeWhile trimmable (rev u))"
    unfolding tr by (rule strip_end)
  then have "hd u = hd (trim t)"
    using assms by (metis hd_append2)
  moreover have "u \<noteq> []"
    using u assms by auto
  then have "\<not> trimmable (hd u)"
    unfolding u_def by (rule hd_dropWhile)
  ultimately show ?thesis
    using l by simp
qed

lemma trim_samples:
  "trim (js '' Walk '') = js ''Walk''"
  "trim (js ''Buy milk'') = js ''Buy milk''"
  "trim [0x09, 0x20, 0x61, 0x20, 0x62, 0x0A, 0xA0] = [0x61, 0x20, 0x62]"
  "trim (js '''') = []"
  "trim (js ''   '') = []"
  by (simp_all add: js_def trim_def trimmable_def WhiteSpace_def LineTerminator_def)

text \<open>
  Claim C1. \<open>addTask\<close> trims its input: the input is the trimmed text between a prefix
  and a suffix that are white space throughout, and a trimmed text that is not empty
  neither starts nor ends with white space, as for \<open>" Walk "\<close>, which gives
  \<open>"Walk"\<close>. When the trimmed text is empty (which is exactly when every code unit of
  the input is white space) the list is left as it was; otherwise one item with the
  trimmed text and \<open>completed = False\<close> is appended at the end. After any sequence of
  calls the list is the old list followed by the items of the non-blank calls, in call
  order, so its length grew by the number of non-blank calls. The empty string and the
  string of three spaces never change the list.
\<close>

theorem addTask_appends_nonblank:
  "todos (addTask i n t s) =
     (if trim t = [] then todos s
      else todos s @ [\<lparr>id' = i, text' = trim t, completed = False, createdAt = n\<rparr>])
   \<and> (trim t = [] \<longleftrightarrow> list_all trimmable t)
   \<and> (\<exists>pre post. t = pre @ trim t @ post \<and> list_all trimmable pre \<and> list_all trimmable post)
   \<and> (trim t \<noteq> [] \<longrightarrow> \<not> trimmable (hd (trim t)) \<and> \<not> trimmable (last (trim t)))
   \<and> todos (addTasks calls s) = todos s @ map newTodo (filter nonblank calls)
   \<and> length (todos (addTasks calls s)) = length (todos s) + length (filter nonblank calls)
   \<and> todos (addTask i n (js '''') s) = todos s
   \<and> todos (addTask i n (js ''   '') s) = todos s
   \<and> trim (js '' Walk '') = js ''Walk''
   \<and> trim [0x09, 0x20, 0x61, 0x20, 0x62, 0x0A, 0xA0] = [0x61, 0x20, 0x62]
   \<and> todos (addTask i n (js '' Walk '') s)
       = todos s @ [\<lparr>id' = i, text' = js ''Walk'', completed = False, createdAt = n\<rparr>]"
proof -
  have one: "todos (addTask i n t s) =
     (if trim t = [] then todos s
      else todos s @ [\<lparr>id' = i, text' = trim t, completed = False, createdAt = n\<rparr>])" for t
    by (simp add: todos_addTask nonblank_def newTodo_def)
  have walk: "js ''Walk'' \<noteq> []"
    by (simp add: js_def)
  have ends: "trim t \<noteq> [] \<longrightarrow> \<not> trimmable (hd (trim t)) \<and> \<not> trimmable (last (trim t))"
    using trim_ends by blast
  show ?thesis
    using trim_decomposition [of t] ends
    by (simp add: one trim_samples todos_addTasks trim_blank_iff walk)
qed

theorem addTask_appends_nonblank_witness:
  "trim (js '' Walk '') \<noteq> []
   \<and> hd (trim (js '' Walk '')) = 0x57 \<and> \<not> trimmable 0x57
   \<and> last (trim (js '' Walk '')) = 0x6B \<and> \<not> trimmable 0x6B
   \<and> \<not> list_all trimmable (js '' Walk '')
   \<and> todos (addTask (js ''c'') (js ''t3'') (js '' Walk '') demo)
       = todos demo @ [\<lparr>id' = js ''c'', text' = js ''Walk'', completed = False, createdAt = js ''t3''\<rparr>]
   \<and> map text' (todos (addTasks sampleCalls (demo\<lparr>todos := []\<rparr>))) = [js ''Walk'', js ''Buy milk'']
   \<and> map id' (todos (addTasks sampleCalls (demo\<lparr>todos := []\<rparr>))) = [js ''c'', js ''e'']
   \<and> length (todos (addTasks sampleCalls (demo\<lparr>todos := []\<rparr>))) = 2"
proof -
  have w: "trim (js '' Walk '') = js ''Walk''" "trim (js ''   '') = []"
    "trim (js ''Buy milk'') = js ''Buy milk''"
    by (rule trim_samples)+
  have ne: "js ''Walk'' \<noteq> []" "js ''Buy milk'' \<noteq> []"
    by (simp_all add: js_def)
  have units: "hd (js ''Walk'') = 0x57" "last (js ''Walk'') = 0x6B"
    "\<not> trimmable 0x57" "\<not> trimmable 0x6B"
    by (simp_all add: js_def trimmable_def WhiteSpace_def LineTerminator_def)
  have sel: "filter nonblank sampleCalls = [(js ''c'', js ''t3'', js '' Walk ''), (js ''e'', js ''t5'', js ''Buy milk'')]"
    by (simp add: sampleCalls_def nonblank_def w ne)
  have items: "map newTodo (filter nonblank sampleCalls)
     = [\<lparr>id' = js ''c'', text' = js ''Walk'', completed = False, createdAt = js ''t3''\<rparr>,
        \<lparr>id' = js ''e'', text' = js ''Buy milk'', completed = False, createdAt = js ''t5''\<rparr>]"
    by (simp add: sel newTodo_def w)
  show ?thesis
    using addTask_appends_nonblank
      [of "js ''c''" "js ''t3''" "js '' Walk ''" demo sampleCalls]
      addTask_appends_nonblank
      [of "js ''c''" "js ''t3''" "js '' Walk ''" "demo\<lparr>todos := []\<rparr>" sampleCalls]
    by (simp add: w ne units items)
qed

section \<open>Toggling an item\<close>

lemma toggleTodo_twice: "toggleTodo i (toggleTodo i s) = s"
proof -
  have "map (\<lambda>todo. if id' todo = i then todo\<lparr>completed := \<not> completed todo\<rparr> else todo)
          (map (\<lambda>todo. if id' todo = i then todo\<lparr>completed := \<not> completed todo\<rparr> else todo) ts) = ts"
    for ts :: "Todo list"
    by (induction ts) simp_all
  then show ?thesis
    by (simp add: toggleTodo_def)
qed

lemma toggleTodo_absent: "i \<notin> id' ` set (todos s) \<Longrightarrow> toggleTodo i s = s"
proof -
  assume absent: "i \<notin> id' ` set (todos s)"
  have "map (\<lambda>todo. if id' todo = i then todo\<lparr>completed := \<not> completed todo\<rparr> else todo) (todos s)
        = map (\<lambda>todo. todo) (todos s)"
    using absent by (intro map_cong) auto
  then show ?thesis
    by (simp add: toggleTodo_def)
qed

text \<open>
  Claim C4. \<open>toggleTodo i\<close> negates \<open>completed\<close> at every position whose item has id
  \<open>i\<close>; when no item has that id the state is unchanged; and toggling the same id twice
  gives back the state it started from, so every item has its original \<open>completed\<close>
  value again.
\<close>

theorem toggleTodo_flips_and_is_involution:
  "(\<forall>k < length (todos s). id' (todos s ! k) = i \<longrightarrow>
       completed (todos (toggleTodo i s) ! k) = (\<not> completed (todos s ! k)))
   \<and> (i \<notin> id' ` set (todos s) \<longrightarrow> toggleTodo i s = s)
   \<and> toggleTodo i (toggleTodo i s) = s
   \<and> map completed (todos (toggleTodo i (toggleTodo i s))) = map completed (todos s)"
  by (simp add: toggleTodo_twice toggleTodo_absent) (simp add: toggleTodo_def)

theorem toggleTodo_flips_and_is_involution_witness:
  "completed (todos (toggleTodo (js ''a'') demo) ! 0) = (\<not> completed (todos demo ! 0))
   \<and> js ''a'' \<in> id' ` set (todos demo)
   \<and> js ''zz'' \<notin> id' ` set (todos demo)
   \<and> toggleTodo (js ''zz'') demo = demo
   \<and> toggleTodo (js ''a'') (toggleTodo (js ''a'') demo) = demo"
proof -
  have here: "(0::nat) < length (todos demo)" "id' (todos demo ! 0) = js ''a''"
    by (simp_all add: demo_def)
  have absent: "js ''zz'' \<notin> id' ` set (todos demo)"
    by (simp add: demo_def js_def)
  have present: "js ''a'' \<in> id' ` set (todos demo)"
    by (simp add: demo_def)
  show ?thesis
    using toggleTodo_flips_and_is_involution [of demo "js ''a''"]
      toggleTodo_flips_and_is_involution [of demo "js ''zz''"] here absent present
    by blast
qed

text \<open>
  Claim C10. \<open>toggleTodo i\<close> keeps the length of the list and, position by position, the
  \<open>id\<close>, \<open>text\<close> and \<open>createdAt\<close> of every item; an item whose id is not \<open>i\<close> is
  unchanged, an item whose id is \<open>i\<close> differs from the old one in \<open>completed\<close> only; the
  other cells of the state are untouched.
\<close>

theorem toggleTodo_frame:
  "length (todos (toggleTodo i s)) = length (todos s)
   \<and> map id' (todos (toggleTodo i s)) = map id' (todos s)
   \<and> map text' (todos (toggleTodo i s)) = map text' (todos s)
   \<and> map createdAt (todos (toggleTodo i s)) = map createdAt (todos s)
   \<and> (\<forall>k < length (todos s). id' (todos s ! k) \<noteq> i \<longrightarrow> todos (toggleTodo i s) ! k = todos s ! k)
   \<and> (\<forall>k < length (todos s). id' (todos s ! k) = i \<longrightarrow>
         todos (toggleTodo i s) ! k = (todos s ! k)\<lparr>completed := \<not> completed (todos s ! k)\<rparr>)
   \<and> darkMode (toggleTodo i s) = darkMode s
   \<and> filter' (toggleTodo i s) = filter' s
   \<and> inputValue (toggleTodo i s) = inputValue s"
  by (simp add: toggleTodo_def)

theorem toggleTodo_frame_witness:
  "length (todos (toggleTodo (js ''a'') demo)) = 2
   \<and> id' (todos demo ! 1) \<noteq> js ''a''
   \<and> todos (toggleTodo (js ''a'') demo) ! 1 = todos demo ! 1
   \<and> id' (todos demo ! 0) = js ''a''
   \<and> todos (toggleTodo (js ''a'') demo) ! 0 = (todos demo ! 0)\<lparr>completed := True\<rparr>"
proof -
  have facts: "length (todos demo) = 2" "id' (todos demo ! 1) \<noteq> js ''a''"
    "id' (todos demo ! 0) = js ''a''" "\<not> completed (todos demo ! 0)"
    by (simp_all add: demo_def js_def)
  have "(0::nat) < length (todos demo)" "(1::nat) < length (todos demo)"
    by (simp_all add: facts)
  then show ?thesis
    using toggleTodo_frame [of "js ''a''" demo] facts by auto
qed

section \<open>Deleting an item\<close>

lemma filter_neq_absent: "i \<notin> f ` set ts \<Longrightarrow> filter (\<lambda>t. f t \<noteq> i) ts = ts"
  by (induction ts) auto

lemma filter_neq_distinct:
  "distinct (map f ts) \<Longrightarrow> i \<in> f ` set ts \<Longrightarrow>
     \<exists>ys t zs. ts = ys @ t # zs \<and> f t = i \<and> filter (\<lambda>t. f t \<noteq> i) ts = ys @ zs"
proof (induction ts)
  case Nil
  then show ?case by simp
next
  case (Cons a ts)
  show ?case
  proof (cases "f a = i")
    case True
    with Cons.prems have "i \<notin> f ` set ts" by auto
    then have "filter (\<lambda>t. f t \<noteq> i) (a # ts) = [] @ ts"
      using True by (simp add: filter_neq_absent)
    then show ?thesis using True by blast
  next
    case False
    with Cons.prems have "distinct (map f ts)" "i \<in> f ` set ts" by auto
    from Cons.IH [OF this] obtain ys t zs
      where "ts = ys @ t # zs" "f t = i" "filter (\<lambda>t. f t \<noteq> i) ts = ys @ zs" by blast
    then have "a # ts = (a # ys) @ t # zs \<and> f t = i \<and> filter (\<lambda>t. f t \<noteq> i) (a # ts) = (a # ys) @ zs"
      using False by simp
    then show ?thesis by blast
  qed
qed

text \<open>
  Claim C5, as stated, at the state \<open>twins\<close>: both items carry the id \<open>a\<close>, the filter of
  \<open>deleteTodo\<close> drops both, and the length falls from 2 to 0, by more than 1. The state is
  the one that the component mounts on a storage that holds this list.
\<close>

theorem deleteTodo_twins_counterexample:
  "mount twinsStorage = Some twins
   \<and> js ''a'' \<in> id' ` set (todos twins)
   \<and> length (todos twins) = 2
   \<and> length (todos (deleteTodo (js ''a'') twins)) = 0
   \<and> \<not> (length (todos twins) - length (todos (deleteTodo (js ''a'') twins)) \<le> 1)"
proof -
  have "getItem twinsStorage STORAGE_TODOS = Inr (Some (JSON_stringify (Todos_value (todos twins))))"
    by (simp add: getItem_def twinsStorage_def)
  then have l: "loadTodos twinsStorage = Todos_value (todos twins)"
    by (rule loadTodos_stored)
  have "getItem twinsStorage STORAGE_DARKMODE = Inr None"
    using storage_keys_differ by (simp add: getItem_def twinsStorage_def)
  then have d: "loadDarkMode twinsStorage = True"
    by (simp add: loadDarkMode_def)
  have "twins = \<lparr>todos = todos twins, darkMode = True, filter' = F_all, inputValue = []\<rparr>"
    by (simp add: twins_def)
  then have m: "mount twinsStorage = Some twins"
    by (simp add: mount_def l d as_Todos_value)
  show ?thesis
    by (simp add: m) (simp add: twins_def deleteTodo_def js_def)
qed

text \<open>
  Claim C5, amended. For a list whose ids are pairwise distinct, \<open>deleteTodo i\<close> removes
  exactly one item, the one with id \<open>i\<close>, when such an item exists, and leaves the state
  unchanged when none exists; the length never grows and falls by at most 1.
\<close>

theorem deleteTodo_removes_one_when_ids_distinct:
  assumes "distinct (map id' (todos s))"
  shows "(i \<in> id' ` set (todos s) \<longrightarrow>
            (\<exists>ys t zs. todos s = ys @ t # zs \<and> id' t = i \<and> todos (deleteTodo i s) = ys @ zs)
            \<and> Suc (length (todos (deleteTodo i s))) = length (todos s))
       \<and> (i \<notin> id' ` set (todos s) \<longrightarrow> deleteTodo i s = s)
       \<and> length (todos (deleteTodo i s)) \<le> length (todos s)
       \<and> length (todos s) - length (todos (deleteTodo i s)) \<le> 1"
proof -
  have absent: "deleteTodo i s = s" if "i \<notin> id' ` set (todos s)"
    using that by (simp add: deleteTodo_def filter_neq_absent)
  have present: "\<exists>ys t zs. todos s = ys @ t # zs \<and> id' t = i \<and> todos (deleteTodo i s) = ys @ zs"
    if "i \<in> id' ` set (todos s)"
    using filter_neq_distinct [OF assms that] by (simp add: deleteTodo_def)
  have len: "Suc (length (todos (deleteTodo i s))) = length (todos s)" if "i \<in> id' ` set (todos s)"
    using present [OF that] by auto
  have "length (todos s) - length (todos (deleteTodo i s)) \<le> 1"
  proof (cases "i \<in> id' ` set (todos s)")
    case True
    from len [OF this] show ?thesis by simp
  next
    case False
    from absent [OF this] show ?thesis by simp
  qed
  moreover have "length (todos (deleteTodo i s)) \<le> length (todos s)"
    by (simp add: deleteTodo_def)
  ultimately show ?thesis
    using absent present len by blast
qed

theorem deleteTodo_removes_one_when_ids_distinct_witness:
  "distinct (map id' (todos demo))
   \<and> js ''a'' \<in> id' ` set (todos demo)
   \<and> Suc (length (todos (deleteTodo (js ''a'') demo))) = length (todos demo)
   \<and> js ''zz'' \<notin> id' ` set (todos demo)
   \<and> deleteTodo (js ''zz'') demo = demo"
proof -
  have d: "distinct (map id' (todos demo))"
    by (simp add: demo_def js_def)
  have present: "js ''a'' \<in> id' ` set (todos demo)"
    by (simp add: demo_def)
  have absent: "js ''zz'' \<notin> id' ` set (todos demo)"
    by (simp add: demo_def js_def)
  show ?thesis
    using deleteTodo_removes_one_when_ids_distinct [OF d, of "js ''a''"]
      deleteTodo_removes_one_when_ids_distinct [OF d, of "js ''zz''"] d present absent
    by blast
qed

section \<open>Clearing the completed items\<close>

text \<open>
  Claim C6. \<open>clearCompleted\<close> leaves no completed item, keeps the items that are not
  completed (all of them, in their order), and a second call changes nothing.
\<close>

theorem clearCompleted_idempotent:
  "filter (\<lambda>t. \<not> completed t) (todos (clearCompleted s)) = filter (\<lambda>t. \<not> completed t) (todos s)
   \<and> filter completed (todos (clearCompleted s)) = []
   \<and> subseq (todos (clearCompleted s)) (todos s)
   \<and> set (todos (clearCompleted s)) = {t \<in> set (todos s). \<not> completed t}
   \<and> clearCompleted (clearCompleted s) = clearCompleted s"
  by (simp add: clearCompleted_def)

section \<open>The filtered view, the counts and the footer\<close>

text \<open>
  Claim C7. \<open>filteredTodos\<close> is the selection the spec writes, a subsequence of the list in
  its order: the whole list under \<open>all\<close>, the items not completed under \<open>active\<close>, the
  completed ones under \<open>completed\<close>. From an empty list, after \<open>addTask "Buy milk"\<close> the
  view has one item with that text under \<open>all\<close> and none under \<open>completed\<close>; after toggling
  that item it has none under \<open>active\<close> and one under \<open>completed\<close>.
\<close>

theorem filteredTodos_selects:
  "filteredTodos s = spec_filteredTasks (filter' s) (todos s)
   \<and> subseq (filteredTodos s) (todos s)
   \<and> filteredTodos (setFilter F_all s) = todos s
   \<and> filteredTodos (setFilter F_active s) = filter (\<lambda>t. \<not> completed t) (todos s)
   \<and> filteredTodos (setFilter F_completed s) = filter completed (todos s)
   \<and> length (filteredTodos (setFilter F_all (addTask i n (js ''Buy milk'') (s\<lparr>todos := []\<rparr>)))) = 1
   \<and> map text' (filteredTodos (setFilter F_all (addTask i n (js ''Buy milk'') (s\<lparr>todos := []\<rparr>))))
        = [js ''Buy milk'']
   \<and> length (filteredTodos (setFilter F_completed (addTask i n (js ''Buy milk'') (s\<lparr>todos := []\<rparr>)))) = 0
   \<and> length (filteredTodos (setFilter F_active
        (toggleTodo i (addTask i n (js ''Buy milk'') (s\<lparr>todos := []\<rparr>))))) = 0
   \<and> length (filteredTodos (setFilter F_completed
        (toggleTodo i (addTask i n (js ''Buy milk'') (s\<lparr>todos := []\<rparr>))))) = 1"
proof -
  have milk: "trim (js ''Buy milk'') = js ''Buy milk''"
    by (simp add: js_def trim_def trimmable_def WhiteSpace_def LineTerminator_def)
  have nonempty: "js ''Buy milk'' \<noteq> []"
    by (simp add: js_def)
  have added: "todos (addTask i n (js ''Buy milk'') (s\<lparr>todos := []\<rparr>))
               = [\<lparr>id' = i, text' = js ''Buy milk'', completed = False, createdAt = n\<rparr>]"
    by (simp add: addTask_def addTodo_def setInputValue_def milk nonempty Let_def)
  have refine: "filteredTodos s = spec_filteredTasks (filter' s) (todos s)"
    unfolding filteredTodos_def spec_filteredTasks_def
    by (cases "filter' s") simp_all
  have sub: "subseq (filteredTodos s) (todos s)"
    by (simp add: filteredTodos_def)
  show ?thesis
    unfolding refine [symmetric]
    by (simp add: sub) (simp add: filteredTodos_def setFilter_def toggleTodo_def added)
qed

text \<open>
  Claim C8. In every state, and so in every reachable one, the number of items that are
  not completed plus the number of completed items is the length of the list.
\<close>

theorem counts_partition: "activeCount s + completedCount s = length (todos s)"
  unfolding activeCount_def completedCount_def
  by (induction "todos s" arbitrary: s) (simp_all add: sum_length_filter_compl add.commute)

text \<open>
  Claim C9. The footer is rendered exactly when the unfiltered list is not empty, whatever
  the filter is; a rendered footer shows the active count, and shows the clear-completed
  button exactly when some item is completed.
\<close>

theorem footer_visibility:
  "(footer s \<noteq> None \<longleftrightarrow> todos s \<noteq> [])
   \<and> footer (setFilter f s) = footer s
   \<and> (\<forall>ft. footer s = Some ft \<longrightarrow>
        activeCountShown ft = activeCount s
        \<and> (clearCompletedShown ft \<longleftrightarrow> (\<exists>t \<in> set (todos s). completed t)))"
  by (auto simp: footer_def setFilter_def activeCount_def completedCount_def filter_empty_conv)

theorem footer_visibility_witness:
  "footer demo = Some \<lparr>activeCountShown = 1, clearCompletedShown = True\<rparr>
   \<and> filteredTodos (setFilter F_completed (clearCompleted demo)) = []
   \<and> footer (setFilter F_completed (clearCompleted demo))
       = Some \<lparr>activeCountShown = 1, clearCompletedShown = False\<rparr>
   \<and> activeCount demo = 1
   \<and> (\<exists>t \<in> set (todos demo). completed t)"
proof -
  have shown: "footer demo = Some \<lparr>activeCountShown = 1, clearCompletedShown = True\<rparr>"
    by (simp add: footer_def demo_def activeCount_def completedCount_def)
  have cleared: "footer (clearCompleted demo) = Some \<lparr>activeCountShown = 1, clearCompletedShown = False\<rparr>"
    by (simp add: footer_def demo_def activeCount_def completedCount_def clearCompleted_def)
  have view: "filteredTodos (setFilter F_completed (clearCompleted demo)) = []"
    by (simp add: filteredTodos_def setFilter_def clearCompleted_def demo_def)
  show ?thesis
    using footer_visibility [of demo F_completed] footer_visibility [of "clearCompleted demo" F_completed]
      shown cleared view
    by auto
qed

end
